theory Spec2Isabelle
  imports Complex_Main "HOL-Library.Multiset"
begin

section \<open>Errors and Python indexing\<close>

text \<open>
  Exceptions are values: every operation that can raise returns \<open>error + 'a\<close>,
  with \<open>Inl\<close> for the exception. Python floats are read as exact reals and Python
  integers as \<open>int\<close>; rounding is outside the model.
\<close>

datatype error = IndexError | ZeroDivisionError

text \<open>\<open>bitstring[i]\<close> on a Python string: a negative index counts from the end, and
  an index outside \<open>-len .. len-1\<close> raises IndexError.\<close>

definition py_getitem :: "string \<Rightarrow> int \<Rightarrow> error + char" where
  "py_getitem s i =
     (let n = int (length s); j = (if i < 0 then n + i else i)
      in if 0 \<le> j \<and> j < n then Inr (s ! nat j) else Inl IndexError)"

section \<open>QAOA evaluator: \<open>compute_expectation\<close> (src/circuits/qaoa.py)\<close>

type_synonym edge = "int \<times> int \<times> real"

text \<open>A \<open>Dict[str, int]\<close> is iterated in insertion order: an association list.\<close>

type_synonym counts = "(string \<times> int) list"

text \<open>The inner loop \<open>for i, j, weight in graph_edges\<close>, with the running \<open>cost\<close>.
  Both operands of \<open>!=\<close> are evaluated, left to right.\<close>

fun cost_loop :: "string \<Rightarrow> edge list \<Rightarrow> real \<Rightarrow> error + real" where
  "cost_loop bitstring [] cost = Inr cost"
| "cost_loop bitstring ((i, j, weight) # es) cost =
     (case py_getitem bitstring i of
        Inl e \<Rightarrow> Inl e
      | Inr a \<Rightarrow>
          (case py_getitem bitstring j of
             Inl e \<Rightarrow> Inl e
           | Inr b \<Rightarrow> cost_loop bitstring es (if a \<noteq> b then cost + weight else cost)))"

text \<open>The outer loop \<open>for bitstring, count in counts.items()\<close>, with the running
  \<open>expectation\<close>. The division \<open>cost * count / total_shots\<close> raises
  ZeroDivisionError when \<open>total_shots\<close> is zero.\<close>

fun expectation_loop :: "counts \<Rightarrow> edge list \<Rightarrow> int \<Rightarrow> real \<Rightarrow> error + real" where
  "expectation_loop [] graph_edges total_shots expectation = Inr expectation"
| "expectation_loop ((bitstring, cnt) # rest) graph_edges total_shots expectation =
     (case cost_loop bitstring graph_edges 0 of
        Inl e \<Rightarrow> Inl e
      | Inr cost \<Rightarrow>
          if total_shots = 0 then Inl ZeroDivisionError
          else expectation_loop rest graph_edges total_shots
                 (expectation + cost * of_int cnt / of_int total_shots))"

definition compute_expectation :: "counts \<Rightarrow> edge list \<Rightarrow> error + real" where
  "compute_expectation counts graph_edges =
     (let total_shots = sum_list (map snd counts)
      in expectation_loop counts graph_edges total_shots 0)"

subsection \<open>The expectation as the specification words it\<close>

text \<open>Cut value of a bitstring: the sum of the weights of the edges whose two endpoint
  bits differ.\<close>

definition cut_value :: "string \<Rightarrow> edge list \<Rightarrow> real" where
  "cut_value bitstring graph_edges =
     (\<Sum>(i, j, weight) \<leftarrow> graph_edges.
        if bitstring ! nat i \<noteq> bitstring ! nat j then weight else 0)"


text \<open>Every node index of every edge is a position of the bitstring.\<close>

definition nodes_in_range :: "string \<Rightarrow> edge list \<Rightarrow> bool" where
  "nodes_in_range bitstring graph_edges =
     list_all (\<lambda>(i, j, weight). 0 \<le> i \<and> i < int (length bitstring)
                               \<and> 0 \<le> j \<and> j < int (length bitstring)) graph_edges"

text \<open>Every lookup \<open>bitstring[i]\<close>, \<open>bitstring[j]\<close> of the inner loop is one Python
  accepts (negative indices included).\<close>

definition lookups_ok :: "string \<Rightarrow> edge list \<Rightarrow> bool" where
  "lookups_ok bitstring graph_edges =
     list_all (\<lambda>(i, j, weight). - int (length bitstring) \<le> i \<and> i < int (length bitstring)
                               \<and> - int (length bitstring) \<le> j \<and> j < int (length bitstring))
       graph_edges"

text \<open>The node indices that appear in an edge list, and the largest of them.\<close>

definition edge_nodes :: "edge list \<Rightarrow> int list" where
  "edge_nodes graph_edges = concat (map (\<lambda>(i, j, weight). [i, j]) graph_edges)"

definition max_node :: "edge list \<Rightarrow> int" where
  "max_node graph_edges = Max (set (edge_nodes graph_edges))"

section \<open>Circuit model\<close>

text \<open>
  The gates the generators emit, with the operand order of the calls in the source:
  \<open>cx(control, target)\<close>, \<open>ccx(control1, control2, target)\<close>,
  \<open>cu(theta, phi, lam, gamma, control, target)\<close>, \<open>u(theta, phi, lam, qubit)\<close>,
  \<open>rx(theta, qubit)\<close>, \<open>measure(qubit, clbit)\<close>. A barrier carries the qubits it
  spans.
\<close>

datatype gate =
    H int
  | CX int int
  | CCX int int int
  | CU real real real real int int
  | U real real real int
  | RX real int
  | Barrier "int list"
  | Measure int int

record circuit =
  num_qubits :: nat
  num_clbits :: nat
  circuit_name :: "string option"
  data :: "gate list"

fun gate_qubits :: "gate \<Rightarrow> int list" where
  "gate_qubits (H q) = [q]"
| "gate_qubits (CX c t) = [c, t]"
| "gate_qubits (CCX c1 c2 t) = [c1, c2, t]"
| "gate_qubits (CU theta phi lam gam c t) = [c, t]"
| "gate_qubits (U theta phi lam q) = [q]"
| "gate_qubits (RX theta q) = [q]"
| "gate_qubits (Barrier qs) = qs"
| "gate_qubits (Measure q c) = [q]"

fun gate_clbits :: "gate \<Rightarrow> int list" where
  "gate_clbits (Measure q c) = [c]"
| "gate_clbits g = []"

text \<open>
  Modelled from the spec: the circuit container (\<open>QuantumCircuit\<close> of the quantum
  library the source imports) is not part of the sources. Section 4.1 of the
  specification gives \<open>newCircuit(numQubits, numClassicalBits, name)\<close> and
  \<open>append(circuit, gate)\<close>, which fails with IndexError if any operand index is out
  of range and otherwise adds the gate at the end of the gate sequence.
\<close>

definition newCircuit :: "nat \<Rightarrow> nat \<Rightarrow> string option \<Rightarrow> circuit" where
  "newCircuit n m nm = \<lparr>num_qubits = n, num_clbits = m, circuit_name = nm, data = []\<rparr>"

definition index_ok :: "nat \<Rightarrow> int \<Rightarrow> bool" where
  "index_ok n i = (0 \<le> i \<and> i < int n)"

definition append_gate :: "gate \<Rightarrow> circuit \<Rightarrow> error + circuit" where
  "append_gate g qc =
     (if list_all (index_ok (num_qubits qc)) (gate_qubits g)
         \<and> list_all (index_ok (num_clbits qc)) (gate_clbits g)
      then Inr (qc\<lparr>data := data qc @ [g]\<rparr>)
      else Inl IndexError)"

text \<open>A sequence of statements on the circuit under construction: the first one
  that raises ends the sequence.\<close>

fun run_ops :: "(circuit \<Rightarrow> error + circuit) list \<Rightarrow> circuit \<Rightarrow> error + circuit" where
  "run_ops [] qc = Inr qc"
| "run_ops (f # fs) qc = (case f qc of Inl e \<Rightarrow> Inl e | Inr qc' \<Rightarrow> run_ops fs qc')"

text \<open>\<open>range(n)\<close>.\<close>

definition py_range :: "nat \<Rightarrow> int list" where
  "py_range n = map int [0..<n]"

text \<open>The circuit methods the source calls. A method given a range of qubits adds
  one gate per qubit, in order; \<open>barrier()\<close> without arguments spans all qubits.\<close>

definition cx :: "int \<Rightarrow> int \<Rightarrow> circuit \<Rightarrow> error + circuit" where
  "cx c t = append_gate (CX c t)"

definition ccx :: "int \<Rightarrow> int \<Rightarrow> int \<Rightarrow> circuit \<Rightarrow> error + circuit" where
  "ccx c1 c2 t = append_gate (CCX c1 c2 t)"

definition cu :: "real \<Rightarrow> real \<Rightarrow> real \<Rightarrow> real \<Rightarrow> int \<Rightarrow> int \<Rightarrow> circuit \<Rightarrow> error + circuit" where
  "cu theta phi lam gam c t = append_gate (CU theta phi lam gam c t)"

definition u :: "real \<Rightarrow> real \<Rightarrow> real \<Rightarrow> int \<Rightarrow> circuit \<Rightarrow> error + circuit" where
  "u theta phi lam q = append_gate (U theta phi lam q)"

definition h :: "int list \<Rightarrow> circuit \<Rightarrow> error + circuit" where
  "h qs = run_ops (map (\<lambda>q. append_gate (H q)) qs)"

definition rx :: "real \<Rightarrow> int list \<Rightarrow> circuit \<Rightarrow> error + circuit" where
  "rx theta qs = run_ops (map (\<lambda>q. append_gate (RX theta q)) qs)"

definition measure :: "int list \<Rightarrow> int list \<Rightarrow> circuit \<Rightarrow> error + circuit" where
  "measure qs cs = run_ops (map (\<lambda>(q, c). append_gate (Measure q c)) (zip qs cs))"

definition barrier :: "circuit \<Rightarrow> error + circuit" where
  "barrier qc = append_gate (Barrier (py_range (num_qubits qc))) qc"

section \<open>Error-correction generator (src/circuits/error_correction.py)\<close>

definition create_single_error_decoder :: "error + circuit" where
  "create_single_error_decoder =
     run_ops
       [cx 0 1,
        cx 0 2,
        ccx 1 2 0,
        ccx 2 0 1,
        ccx 0 1 2]
       (newCircuit 3 0 (Some ''single_error_decoder''))"

definition create_double_error_decoder :: "error + circuit" where
  "create_double_error_decoder =
     run_ops
       [cx 0 5,
        cx 1 5,
        cx 1 6,
        cx 2 6,
        cx 2 7,
        cx 3 7,
        cx 3 8,
        cx 4 8,
        ccx 5 7 1,
        ccx 6 8 3,
        ccx 5 6 0,
        ccx 6 7 2,
        ccx 7 8 4]
       (newCircuit 9 0 (Some ''double_error_decoder''))"

section \<open>QAOA generator: \<open>create_qaoa_circuit\<close> (src/circuits/qaoa.py)\<close>

text \<open>The loop \<open>for edge in graph_edges\<close> of the problem unitary.\<close>

fun problem_unitary :: "edge list \<Rightarrow> real \<Rightarrow> circuit \<Rightarrow> error + circuit" where
  "problem_unitary [] gamma qc = Inr qc"
| "problem_unitary ((k, l, weight) # es) gamma qc =
     (case run_ops
             [cu 0 0 (- 2 * gamma * weight) 0 k l,
              u 0 0 (gamma * weight) k,
              u 0 0 (gamma * weight) l] qc of
        Inl e \<Rightarrow> Inl e
      | Inr qc' \<Rightarrow> problem_unitary es gamma qc')"

definition create_qaoa_circuit :: "nat \<Rightarrow> edge list \<Rightarrow> real \<Rightarrow> real \<Rightarrow> error + circuit" where
  "create_qaoa_circuit n_qubits graph_edges gamma beta =
     run_ops
       [h (py_range n_qubits),
        barrier,
        problem_unitary graph_edges gamma,
        barrier,
        rx (2 * beta) (py_range n_qubits),
        measure (py_range n_qubits) (py_range n_qubits)]
       (newCircuit n_qubits n_qubits None)"

subsection \<open>The ansatz as the specification words it\<close>

text \<open>Per edge \<open>(u, v, w)\<close>: a controlled phase gate of angle \<open>-2 gamma w\<close> on
  \<open>(u, v)\<close>, then phase gates of angle \<open>gamma w\<close> on \<open>u\<close> and on \<open>v\<close>.\<close>

fun edge_gates :: "real \<Rightarrow> edge \<Rightarrow> gate list" where
  "edge_gates gamma (k, l, w) =
     [CU 0 0 (- 2 * gamma * w) 0 k l, U 0 0 (gamma * w) k, U 0 0 (gamma * w) l]"

definition ansatz_gates :: "nat \<Rightarrow> edge list \<Rightarrow> real \<Rightarrow> real \<Rightarrow> gate list" where
  "ansatz_gates n graph_edges gamma beta =
     map H (py_range n)
     @ [Barrier (py_range n)]
     @ concat (map (edge_gates gamma) graph_edges)
     @ [Barrier (py_range n)]
     @ map (RX (2 * beta)) (py_range n)
     @ map (\<lambda>i. Measure i i) (py_range n)"

text \<open>Both endpoints of every edge are qubits of an \<open>n\<close>-qubit circuit.\<close>

definition edges_valid :: "nat \<Rightarrow> edge list \<Rightarrow> bool" where
  "edges_valid n graph_edges =
     list_all (\<lambda>(k, l, w). index_ok n k \<and> index_ok n l) graph_edges"

text \<open>Every operand of the gate is a declared qubit or classical bit of the circuit.\<close>

definition gate_ok :: "circuit \<Rightarrow> gate \<Rightarrow> bool" where
  "gate_ok qc g = (list_all (index_ok (num_qubits qc)) (gate_qubits g)
                   \<and> list_all (index_ok (num_clbits qc)) (gate_clbits g))"

section \<open>Ideal simulation\<close>

text \<open>
  Modelled from the spec: the simulator (the contract \<open>run(circuit) -> stateVector\<close>,
  \<open>run(circuit, shots) -> countsMap\<close> of Section 6) is an external collaborator and
  not part of the sources. Its ideal behaviour is given here by the matrices of the
  gates the source emits, as the specification names them (Hadamard, controlled NOT,
  phase and controlled phase as instances of the general single-qubit unitary,
  X-rotation): a state assigns an amplitude to every basis state (bit \<open>q\<close> of the list
  is the value of qubit \<open>q\<close>), a single-qubit gate acts on one position by its 2x2
  matrix (row = new bit, column = old bit), and a controlled gate acts where all
  control bits are set. A gate naming a qubit outside the register leaves the state
  as it is; circuits built through \<open>append_gate\<close> contain no such gate.
\<close>

type_synonym qstate = "bool list \<Rightarrow> complex"

definition apply1 :: "(bool \<Rightarrow> bool \<Rightarrow> complex) \<Rightarrow> nat \<Rightarrow> qstate \<Rightarrow> qstate" where
  "apply1 m q psi =
     (\<lambda>x. if q < length x
          then m (x ! q) False * psi (x[q := False]) + m (x ! q) True * psi (x[q := True])
          else psi x)"

definition controlled :: "nat list \<Rightarrow> (qstate \<Rightarrow> qstate) \<Rightarrow> qstate \<Rightarrow> qstate" where
  "controlled cs f psi =
     (\<lambda>x. if list_all (\<lambda>c. c < length x \<and> x ! c) cs then f psi x else psi x)"

definition h_matrix :: "bool \<Rightarrow> bool \<Rightarrow> complex" where
  "h_matrix r c = (if r \<and> c then - 1 else 1) / complex_of_real (sqrt 2)"

definition x_matrix :: "bool \<Rightarrow> bool \<Rightarrow> complex" where
  "x_matrix r c = (if r = c then 0 else 1)"

definition u_matrix :: "real \<Rightarrow> real \<Rightarrow> real \<Rightarrow> bool \<Rightarrow> bool \<Rightarrow> complex" where
  "u_matrix theta phi lam r c =
     (if r then (if c then cis (phi + lam) * complex_of_real (cos (theta / 2))
                 else cis phi * complex_of_real (sin (theta / 2)))
      else (if c then - cis lam * complex_of_real (sin (theta / 2))
            else complex_of_real (cos (theta / 2))))"

definition rx_matrix :: "real \<Rightarrow> bool \<Rightarrow> bool \<Rightarrow> complex" where
  "rx_matrix theta r c =
     (if r = c then complex_of_real (cos (theta / 2))
      else - \<i> * complex_of_real (sin (theta / 2)))"

definition cu_matrix :: "real \<Rightarrow> real \<Rightarrow> real \<Rightarrow> real \<Rightarrow> bool \<Rightarrow> bool \<Rightarrow> complex" where
  "cu_matrix theta phi lam gam r c = cis gam * u_matrix theta phi lam r c"

fun gate_sem :: "gate \<Rightarrow> qstate \<Rightarrow> qstate" where
  "gate_sem (H q) = apply1 h_matrix (nat q)"
| "gate_sem (CX c t) = controlled [nat c] (apply1 x_matrix (nat t))"
| "gate_sem (CCX c1 c2 t) = controlled [nat c1, nat c2] (apply1 x_matrix (nat t))"
| "gate_sem (CU theta phi lam gam c t) =
     controlled [nat c] (apply1 (cu_matrix theta phi lam gam) (nat t))"
| "gate_sem (U theta phi lam q) = apply1 (u_matrix theta phi lam) (nat q)"
| "gate_sem (RX theta q) = apply1 (rx_matrix theta) (nat q)"
| "gate_sem (Barrier qs) = id"
| "gate_sem (Measure q c) = id"

text \<open>All qubits start in state 0. The generators measure last, qubit \<open>i\<close> into
  classical bit \<open>i\<close>, so the outcome \<open>bits\<close> has the probability given by the squared
  modulus of its amplitude after the gates before the measurement.\<close>

definition initial_state :: "nat \<Rightarrow> qstate" where
  "initial_state n = (\<lambda>x. if x = replicate n False then 1 else 0)"

definition final_state :: "circuit \<Rightarrow> qstate" where
  "final_state qc = fold gate_sem (data qc) (initial_state (num_qubits qc))"

definition measurement_distribution :: "circuit \<Rightarrow> bool list \<Rightarrow> real" where
  "measurement_distribution qc bits =
     (if length bits = num_qubits qc then (cmod (final_state qc bits))\<^sup>2 else 0)"

text \<open>The factor by which the gates of one edge multiply the amplitude of basis state
  \<open>x\<close>.\<close>

definition phase_of :: "real \<Rightarrow> edge \<Rightarrow> bool list \<Rightarrow> complex" where
  "phase_of gamma e x =
     (case e of (k, l, w) \<Rightarrow>
        (if nat l < length x then u_matrix 0 0 (gamma * w) (x ! nat l) (x ! nat l) else 1)
      * ((if nat k < length x then u_matrix 0 0 (gamma * w) (x ! nat k) (x ! nat k) else 1)
      * ((if nat k < length x \<and> x ! nat k
         then (if nat l < length x
               then cu_matrix 0 0 (- 2 * gamma * w) 0 (x ! nat l) (x ! nat l) else 1)
         else 1))))"

section \<open>Properties of \<open>compute_expectation\<close>\<close>

lemma py_getitem_cases:
  "py_getitem s i = (if - int (length s) \<le> i \<and> i < int (length s)
     then Inr (s ! nat (if i < 0 then int (length s) + i else i)) else Inl IndexError)"
  by (auto simp: py_getitem_def Let_def)

lemma cost_loop_ok: "lookups_ok bs es \<Longrightarrow> \<exists>v. cost_loop bs es c = Inr v"
proof (induction es arbitrary: c)
  case Nil
  show ?case by simp
next
  case (Cons x es)
  obtain i j w where x: "x = (i, j, w)" by (cases x)
  from Cons.prems have ok: "lookups_ok bs es" and
    r: "- int (length bs) \<le> i" "i < int (length bs)" "- int (length bs) \<le> j" "j < int (length bs)"
    by (simp_all add: lookups_ok_def x)
  show ?case using r Cons.IH[OF ok] by (simp add: x py_getitem_cases)
qed

lemma cost_loop_not_ok: "\<not> lookups_ok bs es \<Longrightarrow> cost_loop bs es c = Inl IndexError"
proof (induction es arbitrary: c)
  case Nil
  then show ?case by (simp add: lookups_ok_def)
next
  case (Cons x es)
  obtain i j w where x: "x = (i, j, w)" by (cases x)
  show ?case
  proof (cases "- int (length bs) \<le> i \<and> i < int (length bs)
                \<and> - int (length bs) \<le> j \<and> j < int (length bs)")
    case True
    with Cons.prems have "\<not> lookups_ok bs es" by (simp add: lookups_ok_def x)
    from Cons.IH[OF this] True show ?thesis by (simp add: x py_getitem_cases)
  next
    case False
    then show ?thesis by (auto simp: x py_getitem_cases)
  qed
qed

lemma nodes_in_range_lookups_ok: "nodes_in_range bs es \<Longrightarrow> lookups_ok bs es"
  by (induction es) (auto simp: nodes_in_range_def lookups_ok_def)

lemma node_too_large_not_ok:
  assumes "v \<in> set (edge_nodes es)" and "int (length bs) \<le> v"
  shows "\<not> lookups_ok bs es"
  using assms by (induction es) (auto simp: edge_nodes_def lookups_ok_def)

lemma expectation_loop_index_error:
  assumes "tot \<noteq> 0" and "\<exists>(bs, c) \<in> set cs. \<not> lookups_ok bs es"
  shows "expectation_loop cs es tot acc = Inl IndexError"
  using assms(2)
proof (induction cs arbitrary: acc)
  case Nil
  then show ?case by simp
next
  case (Cons p cs)
  obtain bs c where p: "p = (bs, c)" by (cases p)
  show ?case
  proof (cases "lookups_ok bs es")
    case True
    with Cons.prems have rest: "\<exists>(bs, c) \<in> set cs. \<not> lookups_ok bs es" by (auto simp: p)
    from cost_loop_ok[OF True] obtain v where "cost_loop bs es 0 = Inr v" by blast
    with Cons.IH[OF rest] assms(1) show ?thesis by (simp add: p)
  next
    case False
    from cost_loop_not_ok[OF this] show ?thesis by (simp add: p)
  qed
qed

lemma cost_loop_in_range:
  "nodes_in_range bs es \<Longrightarrow> cost_loop bs es c = Inr (c + cut_value bs es)"
proof (induction es arbitrary: c)
  case Nil
  show ?case by (simp add: cut_value_def)
next
  case (Cons e es)
  obtain i j w where e: "e = (i, j, w)" by (cases e)
  from Cons.prems have r: "0 \<le> i" "i < int (length bs)" "0 \<le> j" "j < int (length bs)"
    and rest: "nodes_in_range bs es"
    by (simp_all add: nodes_in_range_def e)
  show ?case using r Cons.IH[OF rest]
    by (simp add: e py_getitem_def Let_def cut_value_def)
qed

lemma expectation_loop_in_range:
  "total_shots \<noteq> 0 \<Longrightarrow> list_all (\<lambda>(bs, c). nodes_in_range bs es) cs \<Longrightarrow>
   expectation_loop cs es total_shots acc =
     Inr (acc + (\<Sum>(bs, c) \<leftarrow> cs. cut_value bs es * of_int c) / of_int total_shots)"
proof (induction cs arbitrary: acc)
  case Nil
  show ?case by simp
next
  case (Cons p cs)
  obtain bs c where p: "p = (bs, c)" by (cases p)
  from Cons.prems have r: "nodes_in_range bs es" and rest: "list_all (\<lambda>(bs, c). nodes_in_range bs es) cs"
    by (simp_all add: p)
  show ?case using Cons.prems(1) Cons.IH[OF Cons.prems(1) rest]
    by (simp add: p cost_loop_in_range[OF r] add_divide_distrib)
qed

lemma expectation_loop_no_index_error:
  assumes "list_all (\<lambda>(bs, c). lookups_ok bs es) cs"
  shows "expectation_loop cs es total_shots acc \<noteq> Inl IndexError"
  using assms
proof (induction cs arbitrary: acc)
  case Nil
  show ?case by simp
next
  case (Cons p cs)
  obtain bs c where p: "p = (bs, c)" by (cases p)
  from Cons.prems have ok: "lookups_ok bs es"
    and rest: "list_all (\<lambda>(bs, c). lookups_ok bs es) cs"
    by (simp_all add: p)
  from cost_loop_ok[OF ok] obtain v where "cost_loop bs es 0 = Inr v" by blast
  with Cons.IH[OF rest] show ?case by (simp add: p)
qed

lemma max_node_in_edge_nodes:
  assumes "es \<noteq> []"
  shows "max_node es \<in> set (edge_nodes es)"
proof -
  from assms obtain i j w rest where "es = (i, j, w) # rest"
    by (cases es) auto
  then have "set (edge_nodes es) \<noteq> {}" by (simp add: edge_nodes_def)
  then show ?thesis unfolding max_node_def by (intro Max_in) simp_all
qed




text \<open>
  C5, as the code has it. A non-empty counts map whose counts sum to zero never yields
  a number: the operation fails with ZeroDivisionError when every lookup on the first
  bitstring is in range, and with IndexError otherwise. On the empty map the loop body
  never runs and the operation returns 0.
\<close>

theorem compute_expectation_zero_total:
  "(counts \<noteq> [] \<and> sum_list (map snd counts) = 0 \<longrightarrow>
      compute_expectation counts graph_edges =
        (if lookups_ok (fst (hd counts)) graph_edges then Inl ZeroDivisionError
         else Inl IndexError))
   \<and> compute_expectation [] graph_edges = Inr 0"
proof (intro conjI impI)
  assume a: "counts \<noteq> [] \<and> sum_list (map snd counts) = 0"
  then obtain bs c rest where cs: "counts = (bs, c) # rest" by (cases counts) auto
  show "compute_expectation counts graph_edges =
        (if lookups_ok (fst (hd counts)) graph_edges then Inl ZeroDivisionError
         else Inl IndexError)"
  proof (cases "lookups_ok bs graph_edges")
    case True
    from cost_loop_ok[OF True] obtain v where "cost_loop bs graph_edges 0 = Inr v" by blast
    with a True show ?thesis by (simp add: compute_expectation_def cs)
  next
    case False
    from cost_loop_not_ok[OF False] False show ?thesis
      by (simp add: compute_expectation_def cs)
  qed
next
  show "compute_expectation [] graph_edges = Inr 0"
    by (simp add: compute_expectation_def)
qed

theorem compute_expectation_zero_total_counterexample:
  "sum_list (map snd ([] :: counts)) = 0
   \<and> compute_expectation [] [(0, 1, 1), (1, 2, 1), (2, 3, 1)] = Inr 0
   \<and> sum_list (map snd [(''0'', 0 :: int)]) = 0
   \<and> compute_expectation [(''0'', 0)] [(0, 1, 1)] = Inl IndexError"
  by (simp add: compute_expectation_def py_getitem_def)

theorem compute_expectation_zero_total_witness:
  "[(''01'', 0 :: int)] \<noteq> [] \<and> sum_list (map snd [(''01'', 0 :: int)]) = 0
   \<and> lookups_ok (fst (hd [(''01'', 0 :: int)])) [(0, 1, 1)]
   \<and> compute_expectation [(''01'', 0)] [(0, 1, 1)] = Inl ZeroDivisionError"
  using compute_expectation_zero_total [of "[(''01'', 0)]" "[(0, 1, 1)]"]
  by (simp add: lookups_ok_def)


text \<open>
  C10, as the code has it. Where every node index is non-negative and smaller than the
  length of every bitstring key, no lookup fails: the operation does not raise
  IndexError, and returns a number when the total is not zero. Where the total is not
  zero and some key is shorter than the largest node index plus one, the operation
  fails with IndexError.
\<close>

theorem compute_expectation_indexing:
  "(list_all (\<lambda>(bitstring, cnt). nodes_in_range bitstring graph_edges) counts
      \<longrightarrow> compute_expectation counts graph_edges \<noteq> Inl IndexError
          \<and> (sum_list (map snd counts) \<noteq> 0
               \<longrightarrow> (\<exists>v. compute_expectation counts graph_edges = Inr v)))
   \<and> (sum_list (map snd counts) \<noteq> 0 \<and> graph_edges \<noteq> []
        \<and> list_ex (\<lambda>(bitstring, cnt). int (length bitstring) < max_node graph_edges + 1) counts
      \<longrightarrow> compute_expectation counts graph_edges = Inl IndexError)"
proof (intro conjI impI)
  assume r: "list_all (\<lambda>(bitstring, cnt). nodes_in_range bitstring graph_edges) counts"
  then have "list_all (\<lambda>(bs, c). lookups_ok bs graph_edges) counts"
    by (auto simp: list_all_iff intro: nodes_in_range_lookups_ok)
  from expectation_loop_no_index_error[OF this]
  show "compute_expectation counts graph_edges \<noteq> Inl IndexError"
    by (simp add: compute_expectation_def)
next
  assume r: "list_all (\<lambda>(bitstring, cnt). nodes_in_range bitstring graph_edges) counts"
    and nz: "sum_list (map snd counts) \<noteq> 0"
  from expectation_loop_in_range[OF nz r, of 0]
  show "\<exists>v. compute_expectation counts graph_edges = Inr v"
    by (simp add: compute_expectation_def)
next
  assume a: "sum_list (map snd counts) \<noteq> 0 \<and> graph_edges \<noteq> []
        \<and> list_ex (\<lambda>(bitstring, cnt). int (length bitstring) < max_node graph_edges + 1) counts"
  then obtain bs c where mem: "(bs, c) \<in> set counts"
    and short: "int (length bs) < max_node graph_edges + 1"
    by (auto simp: list_ex_iff)
  from a have "max_node graph_edges \<in> set (edge_nodes graph_edges)"
    by (simp add: max_node_in_edge_nodes)
  moreover from short have "int (length bs) \<le> max_node graph_edges" by simp
  ultimately have "\<not> lookups_ok bs graph_edges" by (rule node_too_large_not_ok)
  with mem have "\<exists>(bs, c) \<in> set counts. \<not> lookups_ok bs graph_edges" by blast
  with a show "compute_expectation counts graph_edges = Inl IndexError"
    by (simp add: compute_expectation_def expectation_loop_index_error)
qed

theorem compute_expectation_indexing_counterexample:
  "list_ex (\<lambda>(bitstring, cnt). int (length bitstring) < max_node [(0, 1, 1)] + 1)
       [(''00'', 0 :: int), (''0'', 0)]
   \<and> compute_expectation [(''00'', 0), (''0'', 0)] [(0, 1, 1)] = Inl ZeroDivisionError
   \<and> list_all (\<lambda>(bitstring, cnt).
         list_all (\<lambda>v. v < int (length bitstring)) (edge_nodes [(- 3, 0, 1)]))
       [(''01'', 1 :: int)]
   \<and> compute_expectation [(''01'', 1)] [(- 3, 0, 1)] = Inl IndexError"
  by (simp add: compute_expectation_def py_getitem_def max_node_def edge_nodes_def)

theorem compute_expectation_indexing_witness:
  "list_all (\<lambda>(bitstring, cnt). nodes_in_range bitstring [(0, 1, 1)]) [(''01'', 1 :: int)]
   \<and> sum_list (map snd [(''01'', 1 :: int)]) \<noteq> 0
   \<and> compute_expectation [(''01'', 1)] [(0, 1, 1)] \<noteq> Inl IndexError
   \<and> (\<exists>v. compute_expectation [(''01'', 1)] [(0, 1, 1)] = Inr v)
   \<and> sum_list (map snd [(''0'', 1 :: int)]) \<noteq> 0 \<and> [(0 :: int, 1 :: int, 1 :: real)] \<noteq> []
   \<and> list_ex (\<lambda>(bitstring, cnt). int (length bitstring) < max_node [(0, 1, 1)] + 1)
        [(''0'', 1 :: int)]
   \<and> compute_expectation [(''0'', 1)] [(0, 1, 1)] = Inl IndexError"
  using compute_expectation_indexing [of "[(0, 1, 1)]" "[(''01'', 1)]"]
    compute_expectation_indexing [of "[(0, 1, 1)]" "[(''0'', 1)]"]
  by (simp add: nodes_in_range_def max_node_def edge_nodes_def)

section \<open>Properties of the error-correction generator\<close>

text \<open>
  C2. \<open>create_single_error_decoder\<close> returns a 3-qubit circuit whose gate sequence
  is, in order, CNOT 0 \<rightarrow> 1, CNOT 0 \<rightarrow> 2, and three controlled-controlled-NOT gates
  with controls 1, 2 and target 0, controls 2, 0 and target 1, controls 0, 1 and
  target 2.
\<close>

theorem create_single_error_decoder_gates:
  "create_single_error_decoder =
     Inr \<lparr>num_qubits = 3, num_clbits = 0, circuit_name = Some ''single_error_decoder'',
          data = [CX 0 1, CX 0 2, CCX 1 2 0, CCX 2 0 1, CCX 0 1 2]\<rparr>"
  by (simp add: create_single_error_decoder_def newCircuit_def cx_def ccx_def
      append_gate_def index_ok_def)

text \<open>
  C3. \<open>create_double_error_decoder\<close> returns a 9-qubit circuit whose gate sequence
  is eight CNOTs, from data qubits 0 and 1 into syndrome qubit 5, from 1 and 2 into 6,
  from 2 and 3 into 7, from 3 and 4 into 8, followed by exactly five
  controlled-controlled-NOT gates, each controlled by two syndrome qubits and
  targeting a data qubit.
\<close>

theorem create_double_error_decoder_gates:
  "create_double_error_decoder =
     Inr \<lparr>num_qubits = 9, num_clbits = 0, circuit_name = Some ''double_error_decoder'',
          data = [CX 0 5, CX 1 5, CX 1 6, CX 2 6, CX 2 7, CX 3 7, CX 3 8, CX 4 8,
                  CCX 5 7 1, CCX 6 8 3, CCX 5 6 0, CCX 6 7 2, CCX 7 8 4]\<rparr>"
  by (simp add: create_double_error_decoder_def newCircuit_def cx_def ccx_def
      append_gate_def index_ok_def)

section \<open>Properties of the QAOA generator\<close>

lemma append_gate_ok:
  "gate_ok qc g \<Longrightarrow> append_gate g qc = Inr (qc\<lparr>data := data qc @ [g]\<rparr>)"
  by (simp add: append_gate_def gate_ok_def)

lemma gate_ok_data [simp]: "gate_ok (qc\<lparr>data := d\<rparr>) = gate_ok qc"
  by (rule ext) (simp add: gate_ok_def)

lemma run_ops_append_gates:
  "list_all (gate_ok qc) gs \<Longrightarrow>
   run_ops (map append_gate gs) qc = Inr (qc\<lparr>data := data qc @ gs\<rparr>)"
proof (induction gs arbitrary: qc)
  case Nil
  show ?case by simp
next
  case (Cons g gs)
  from Cons.prems have g: "gate_ok qc g" and
    gs: "list_all (gate_ok (qc\<lparr>data := data qc @ [g]\<rparr>)) gs"
    by simp_all
  show ?case using Cons.IH[OF gs] by (simp add: append_gate_ok[OF g])
qed

lemma index_ok_py_range: "list_all (index_ok n) (py_range n)"
  by (simp add: list_all_iff py_range_def index_ok_def)

lemma h_range:
  "h (py_range (num_qubits qc)) qc = Inr (qc\<lparr>data := data qc @ map H (py_range (num_qubits qc))\<rparr>)"
proof -
  have "list_all (gate_ok qc) (map H (py_range (num_qubits qc)))"
    using index_ok_py_range[of "num_qubits qc"] by (simp add: list_all_iff gate_ok_def)
  from run_ops_append_gates[OF this] show ?thesis by (simp add: h_def comp_def)
qed

lemma rx_range:
  "rx theta (py_range (num_qubits qc)) qc =
     Inr (qc\<lparr>data := data qc @ map (RX theta) (py_range (num_qubits qc))\<rparr>)"
proof -
  have "list_all (gate_ok qc) (map (RX theta) (py_range (num_qubits qc)))"
    using index_ok_py_range[of "num_qubits qc"] by (simp add: list_all_iff gate_ok_def)
  from run_ops_append_gates[OF this] show ?thesis by (simp add: rx_def comp_def)
qed

lemma zip_same: "zip xs xs = map (\<lambda>x. (x, x)) xs"
  by (induction xs) simp_all

lemma measure_range:
  assumes "num_clbits qc = num_qubits qc"
  shows "measure (py_range (num_qubits qc)) (py_range (num_qubits qc)) qc =
     Inr (qc\<lparr>data := data qc @ map (\<lambda>i. Measure i i) (py_range (num_qubits qc))\<rparr>)"
proof -
  have "list_all (gate_ok qc) (map (\<lambda>i. Measure i i) (py_range (num_qubits qc)))"
    using index_ok_py_range[of "num_qubits qc"] assms by (simp add: list_all_iff gate_ok_def)
  from run_ops_append_gates[OF this] show ?thesis by (simp add: measure_def zip_same comp_def)
qed

lemma barrier_all:
  "barrier qc = Inr (qc\<lparr>data := data qc @ [Barrier (py_range (num_qubits qc))]\<rparr>)"
  unfolding barrier_def
  by (rule append_gate_ok) (simp add: gate_ok_def index_ok_py_range)

lemma problem_unitary_valid:
  "edges_valid (num_qubits qc) es \<Longrightarrow>
   problem_unitary es gamma qc = Inr (qc\<lparr>data := data qc @ concat (map (edge_gates gamma) es)\<rparr>)"
proof (induction es arbitrary: qc)
  case Nil
  show ?case by simp
next
  case (Cons e es)
  obtain k l w where e: "e = (k, l, w)" by (cases e)
  let ?qc = "qc\<lparr>data := data qc @ edge_gates gamma e\<rparr>"
  from Cons.prems have kl: "index_ok (num_qubits qc) k" "index_ok (num_qubits qc) l"
    and rest: "edges_valid (num_qubits ?qc) es"
    by (simp_all add: edges_valid_def e)
  have step: "run_ops [cu 0 0 (- 2 * gamma * w) 0 k l, u 0 0 (gamma * w) k, u 0 0 (gamma * w) l] qc
              = Inr ?qc"
    using kl by (simp add: cu_def u_def append_gate_def e)
  have "problem_unitary (e # es) gamma qc = problem_unitary es gamma ?qc"
    by (simp only: e problem_unitary.simps step sum.case)
  with Cons.IH[OF rest] show ?case by (simp add: e)
qed

lemma problem_unitary_invalid:
  "\<not> edges_valid (num_qubits qc) es \<Longrightarrow> problem_unitary es gamma qc = Inl IndexError"
proof (induction es arbitrary: qc)
  case Nil
  then show ?case by (simp add: edges_valid_def)
next
  case (Cons e es)
  obtain k l w where e: "e = (k, l, w)" by (cases e)
  show ?case
  proof (cases "index_ok (num_qubits qc) k \<and> index_ok (num_qubits qc) l")
    case True
    let ?qc = "qc\<lparr>data := data qc @ edge_gates gamma e\<rparr>"
    have step: "run_ops [cu 0 0 (- 2 * gamma * w) 0 k l, u 0 0 (gamma * w) k, u 0 0 (gamma * w) l] qc
              = Inr ?qc"
      using True by (simp add: cu_def u_def append_gate_def e)
    from Cons.prems True have "\<not> edges_valid (num_qubits ?qc) es"
      by (simp add: edges_valid_def e)
    moreover have "problem_unitary (e # es) gamma qc = problem_unitary es gamma ?qc"
      by (simp only: e problem_unitary.simps step sum.case)
    ultimately show ?thesis using Cons.IH by simp
  next
    case False
    then have "run_ops [cu 0 0 (- 2 * gamma * w) 0 k l, u 0 0 (gamma * w) k, u 0 0 (gamma * w) l] qc
              = Inl IndexError"
      by (auto simp: cu_def u_def append_gate_def)
    then show ?thesis by (simp only: e problem_unitary.simps sum.case)
  qed
qed

lemma create_qaoa_circuit_cases:
  "create_qaoa_circuit n es gamma beta =
     (if edges_valid n es
      then Inr \<lparr>num_qubits = n, num_clbits = n, circuit_name = None,
                data = ansatz_gates n es gamma beta\<rparr>
      else Inl IndexError)"
proof (cases "edges_valid n es")
  case True
  show ?thesis
    using True
    by (simp add: create_qaoa_circuit_def newCircuit_def h_range[where qc="\<lparr>num_qubits = n, num_clbits = n, circuit_name = None, data = []\<rparr>", simplified]
        barrier_all problem_unitary_valid rx_range[where qc="\<lparr>num_qubits = n, num_clbits = n, circuit_name = None, data = d\<rparr>" for d, simplified]
        measure_range[where qc="\<lparr>num_qubits = n, num_clbits = n, circuit_name = None, data = d\<rparr>" for d, simplified] ansatz_gates_def)
next
  case False
  show ?thesis
    using False
    by (simp add: create_qaoa_circuit_def newCircuit_def h_range[where qc="\<lparr>num_qubits = n, num_clbits = n, circuit_name = None, data = []\<rparr>", simplified]
        barrier_all problem_unitary_invalid)
qed


text \<open>
  C4, as the code has it. For every qubit count, angles and edge list whose endpoints
  all lie in \<open>0 .. n-1\<close>, \<open>create_qaoa_circuit\<close> returns the circuit with this gate
  sequence: a Hadamard on each qubit; a barrier; per edge, in list order, the
  controlled phase gate of angle \<open>-2 gamma w\<close> and the two phase gates of angle
  \<open>gamma w\<close>; a barrier; an X-rotation of angle \<open>2 beta\<close> on each qubit; a
  measurement of each qubit \<open>i\<close> into classical bit \<open>i\<close>. With an endpoint that is
  not a qubit of the circuit the construction raises and returns no circuit.
\<close>

theorem create_qaoa_circuit_gates:
  assumes "edges_valid n_qubits graph_edges"
  shows "create_qaoa_circuit n_qubits graph_edges gamma beta =
     Inr \<lparr>num_qubits = n_qubits, num_clbits = n_qubits, circuit_name = None,
          data = ansatz_gates n_qubits graph_edges gamma beta\<rparr>"
  using assms by (simp add: create_qaoa_circuit_cases)

theorem create_qaoa_circuit_gates_counterexample:
  "create_qaoa_circuit 1 [(0, 1, 1)] 1 1 = Inl IndexError"
  by (simp add: create_qaoa_circuit_def newCircuit_def h_def barrier_def py_range_def
      append_gate_def index_ok_def cu_def u_def)

theorem create_qaoa_circuit_gates_witness:
  "edges_valid 2 [(0, 1, 1)]
   \<and> create_qaoa_circuit 2 [(0, 1, 1)] (1 / 2) 1 =
       Inr \<lparr>num_qubits = 2, num_clbits = 2, circuit_name = None,
            data = [H 0, H 1, Barrier [0, 1],
                    CU 0 0 (- 1) 0 0 1, U 0 0 (1 / 2) 0, U 0 0 (1 / 2) 1,
                    Barrier [0, 1], RX 2 0, RX 2 1, Measure 0 0, Measure 1 1]\<rparr>"
  using create_qaoa_circuit_gates [of 2 "[(0, 1, 1)]" "1 / 2" 1]
  by (simp add: edges_valid_def index_ok_def ansatz_gates_def py_range_def upt_rec)

section \<open>Edge order and the measurement distribution\<close>

lemma apply1_diagonal:
  assumes "m False True = 0" and "m True False = 0"
  shows "apply1 m q psi = (\<lambda>x. (if q < length x then m (x ! q) (x ! q) else 1) * psi x)"
proof (rule ext)
  fix x
  show "apply1 m q psi x = (if q < length x then m (x ! q) (x ! q) else 1) * psi x"
  proof (cases "q < length x")
    case True
    have id: "x[q := x ! q] = x" by simp
    show ?thesis
    proof (cases "x ! q")
      case True
      with id have "x[q := True] = x" by simp
      with \<open>q < length x\<close> True assms show ?thesis by (simp add: apply1_def)
    next
      case False
      with id have "x[q := False] = x" by simp
      with \<open>q < length x\<close> False assms show ?thesis by (simp add: apply1_def)
    qed
  next
    case False
    then show ?thesis by (simp add: apply1_def)
  qed
qed

lemma controlled_diagonal:
  assumes "m False True = 0" and "m True False = 0"
  shows "controlled [c] (apply1 m t) psi =
     (\<lambda>x. (if c < length x \<and> x ! c
            then (if t < length x then m (x ! t) (x ! t) else 1) else 1) * psi x)"
  by (rule ext) (simp add: controlled_def apply1_diagonal[OF assms])

lemma u_matrix_off_diagonal:
  "u_matrix 0 0 lam False True = 0" "u_matrix 0 0 lam True False = 0"
  by (simp_all add: u_matrix_def)

lemma cu_matrix_off_diagonal:
  "cu_matrix 0 0 lam gam False True = 0" "cu_matrix 0 0 lam gam True False = 0"
  by (simp_all add: cu_matrix_def u_matrix_def)

lemma edge_gates_sem:
  "fold gate_sem (edge_gates gamma e) psi = (\<lambda>x. phase_of gamma e x * psi x)"
proof -
  obtain k l w where e: "e = (k, l, w)" by (cases e)
  show ?thesis
    unfolding e edge_gates.simps fold_simps gate_sem.simps phase_of_def
      controlled_diagonal[OF cu_matrix_off_diagonal]
      apply1_diagonal[OF u_matrix_off_diagonal]
    by (rule ext) (simp only: prod.case mult.assoc)
qed

lemma edge_ops_commute:
  "fold gate_sem (edge_gates gamma e1) \<circ> fold gate_sem (edge_gates gamma e2) =
   fold gate_sem (edge_gates gamma e2) \<circ> fold gate_sem (edge_gates gamma e1)"
  by (rule ext) (simp add: edge_gates_sem mult.left_commute)

lemma fold_concat_map: "fold f (concat (map g xs)) = fold (\<lambda>x. fold f (g x)) xs"
  by (induction xs) simp_all

lemma problem_unitary_sem_permuted:
  assumes "mset es' = mset es"
  shows "fold gate_sem (concat (map (edge_gates gamma) es')) =
         fold gate_sem (concat (map (edge_gates gamma) es))"
  unfolding fold_concat_map
  by (rule fold_multiset_equiv[OF _ assms]) (rule edge_ops_commute)

lemma edges_valid_permuted:
  assumes "mset es' = mset es"
  shows "edges_valid n es' = edges_valid n es"
  using mset_eq_setD[OF assms] by (simp add: edges_valid_def list_all_iff)

lemma final_state_permuted:
  assumes "mset es' = mset es"
  shows "final_state \<lparr>num_qubits = n, num_clbits = n, circuit_name = None,
                data = ansatz_gates n es' gamma beta\<rparr>
       = final_state \<lparr>num_qubits = n, num_clbits = n, circuit_name = None,
                data = ansatz_gates n es gamma beta\<rparr>"
  by (simp add: final_state_def ansatz_gates_def problem_unitary_sem_permuted[OF assms])

text \<open>
  C9. For every edge list and every permutation of it, the circuits built from the two
  lists with the same qubit count and angles have the same measurement distribution
  under ideal simulation (and the construction fails for one exactly when it fails
  for the other): the gates of an edge only multiply amplitudes by a phase, so the
  edge blocks commute.
\<close>

theorem ansatz_distribution_edge_order:
  assumes "mset graph_edges' = mset graph_edges"
  shows "map_sum id measurement_distribution (create_qaoa_circuit n graph_edges' gamma beta)
       = map_sum id measurement_distribution (create_qaoa_circuit n graph_edges gamma beta)"
proof -
  have "measurement_distribution \<lparr>num_qubits = n, num_clbits = n, circuit_name = None,
                data = ansatz_gates n graph_edges' gamma beta\<rparr>
      = measurement_distribution \<lparr>num_qubits = n, num_clbits = n, circuit_name = None,
                data = ansatz_gates n graph_edges gamma beta\<rparr>"
    by (rule ext) (simp add: measurement_distribution_def final_state_permuted[OF assms])
  then show ?thesis
    by (simp add: create_qaoa_circuit_cases edges_valid_permuted[OF assms])
qed


theorem ansatz_distribution_edge_order_witness:
  "mset [(1, 2, 1), (0, 1, 1 :: real)] = mset [(0 :: int, 1 :: int, 1), (1, 2, 1)]
   \<and> (\<exists>qc. create_qaoa_circuit 3 [(0, 1, 1), (1, 2, 1)] 1 1 = Inr qc)
   \<and> map_sum id measurement_distribution (create_qaoa_circuit 3 [(1, 2, 1), (0, 1, 1)] 1 1)
     = map_sum id measurement_distribution (create_qaoa_circuit 3 [(0, 1, 1), (1, 2, 1)] 1 1)"
proof -
  have p: "mset [(1, 2, 1), (0, 1, 1 :: real)] = mset [(0 :: int, 1 :: int, 1), (1, 2, 1)]"
    by (simp add: add_mset_commute)
  have v: "edges_valid 3 [(0, 1, 1), (1, 2, 1)]"
    by (simp add: edges_valid_def index_ok_def)
  show ?thesis
    using p ansatz_distribution_edge_order [OF p, of 3 1 1]
    by (simp add: create_qaoa_circuit_cases v)
qed

end
